theory Spec2Isabelle
  imports Main
begin

section \<open>yaraprocessor: stream segmentation and offset accounting\<close>

text \<open>
  A shallow embedding of \<^verbatim>\<open>yaraprocessor.py\<close>: the class \<^verbatim>\<open>Processor\<close>
  becomes a record, its methods become functions from a processor to the updated
  processor, and every \<^verbatim>\<open>raise\<close> becomes a value of the error type. Python's
  integers are unbounded, so sizes, steps and offsets are of type \<open>int\<close>; Python 2
  byte strings are of type \<open>string\<close>.
\<close>

subsection \<open>Python primitives used by the module\<close>

text \<open>
  \<^verbatim>\<open>s[i:j]\<close> and \<^verbatim>\<open>s[i:]\<close>: a negative bound counts from the end, and every
  bound is clipped to the range of the sequence; a slice never raises.
\<close>

definition clip :: "nat \<Rightarrow> int \<Rightarrow> nat" where
  "clip n i = (if i < 0 then nat (max 0 (int n + i)) else min (nat i) n)"

definition py_slice :: "'a list \<Rightarrow> int \<Rightarrow> int \<Rightarrow> 'a list" where
  "py_slice xs i j = take (clip (length xs) j - clip (length xs) i) (drop (clip (length xs) i) xs)"

definition py_slice_from :: "'a list \<Rightarrow> int \<Rightarrow> 'a list" where
  "py_slice_from xs i = drop (clip (length xs) i) xs"

text \<open>\<^verbatim>\<open>len\<close> returns a Python integer.\<close>

definition len :: "'a list \<Rightarrow> int" where
  "len xs = int (length xs)"

text \<open>\<^verbatim>\<open>str.lower()\<close> on a byte string: the letters A to Z are moved to a to z.\<close>

definition lower_char :: "char \<Rightarrow> char" where
  "lower_char c =
     (if (65::nat) \<le> of_char c \<and> of_char c \<le> (90::nat)
      then char_of (of_char c + (32::nat)) else c)"

definition lower :: "string \<Rightarrow> string" where
  "lower s = map lower_char s"

text \<open>\<^verbatim>\<open>binascii.hexlify\<close>: two lowercase hexadecimal digits for each byte.\<close>

definition hex_digit :: "nat \<Rightarrow> char" where
  "hex_digit n = ''0123456789abcdef'' ! (n mod 16)"

definition hexlify :: "string \<Rightarrow> string" where
  "hexlify s = concat (map (\<lambda>c. [hex_digit (of_char c div 16), hex_digit (of_char c mod 16)]) s)"

text \<open>\<^verbatim>\<open>'%s' % i\<close> for a non-negative index: its decimal digits.\<close>

fun decimal :: "nat \<Rightarrow> string" where
  "decimal n =
     (if n < 10 then [hex_digit n] else decimal (n div 10) @ [hex_digit (n mod 10)])"

declare decimal.simps [simp del]

subsection \<open>The data model\<close>

text \<open>
  What \<^verbatim>\<open>yara\<close> returns for one rule that matched: the rule's name and the
  strings found, each a triple \<^verbatim>\<open>(offset, identifier, matched bytes)\<close> with the
  offset local to the buffer scanned.
\<close>

record yara_match =
  rule :: string
  strings :: "(int \<times> string \<times> string) list"

text \<open>
  The compiled rules: \<^verbatim>\<open>self._rules.match(data=...)\<close> as a function of the buffer.
  The matcher is taken to return; a \<^verbatim>\<open>yara.Error\<close> raised by a match is not
  modelled.
\<close>

type_synonym yara_rules = "string \<Rightarrow> yara_match list"

text \<open>
  The dictionaries \<^verbatim>\<open>analyze\<close> builds: one
  \<^verbatim>\<open>{'offset': ..., 'rule_id': ..., 'string': ...}\<close> for each string, and one
  \<^verbatim>\<open>{'result': ..., 'strings': [...], 'subtype': 'scan_result'}\<close> for each match.
\<close>

record string_hit =
  h_offset :: int
  h_rule_id :: string
  h_string :: string

record scan_result =
  f_result :: string
  f_strings :: "string_hit list"
  f_subtype :: string

text \<open>
  \<^verbatim>\<open>self._rule_files\<close> is the dictionary of \<^verbatim>\<open>_prepare_rules\<close> for rule
  sources, and the single path for compiled rules.
\<close>

datatype rule_files = RuleDict "(string \<times> string) list" | RulePath string

text \<open>
  The attributes of a \<^verbatim>\<open>Processor\<close>, without the leading underscore. The logger
  and \<^verbatim>\<open>_next\<close>, which no method reads, are left out.
\<close>

record processor =
  rule_files :: rule_files
  rules :: yara_rules
  allowed_modes :: "string list"
  processing_mode :: string
  buffer_size :: int
  window_step :: int
  raw_results :: "yara_match list"
  formatted_results :: "scan_result list"
  current :: string
  window_index :: int
  offset :: int

text \<open>
  The exceptions of the constructor. \<^verbatim>\<open>ProcessorException\<close> is raised at four
  places, told apart here by what its message says.
\<close>

datatype reason =
    RuleSyntaxError string
  | CompiledToOneFile
  | LoadingCompiledRules string
  | NotSupportedMode string

datatype error =
    IOError_EACCES string
  | IOError_ENOENT string
  | YaraError string
  | ProcessorException reason

text \<open>
  The world the constructor looks at: which paths are files, which of them open, and
  what \<^verbatim>\<open>yara.compile\<close> and \<^verbatim>\<open>yara.load\<close> answer. A failing
  \<^verbatim>\<open>yara.compile\<close> says whether the error is a \<^verbatim>\<open>yara.SyntaxError\<close>.
\<close>

datatype yara_error = SyntaxError string | Error string

record env =
  isfile :: "string \<Rightarrow> bool"
  can_open :: "string \<Rightarrow> bool"
  yara_compile :: "(string \<times> string) list \<Rightarrow> yara_error + yara_rules"
  yara_load :: "string \<Rightarrow> yara_error + yara_rules"

text \<open>Keyword arguments: \<^verbatim>\<open>kwargs.get(name, default)\<close>.\<close>

type_synonym kwargs = "string \<rightharpoonup> int"

definition kwargs_get :: "kwargs \<Rightarrow> string \<Rightarrow> int \<Rightarrow> int" where
  "kwargs_get kw name dflt = (case kw name of None \<Rightarrow> dflt | Some v \<Rightarrow> v)"

subsection \<open>The windowing generator\<close>

text \<open>
  \<^verbatim>\<open>_window(sequence, size, step)\<close>: the loop at index \<open>i\<close>. The generator ends at
  the first empty slice; when no slice is ever empty it yields for ever, which is the
  value \<open>None\<close>.
\<close>

partial_function (option) window_from :: "'a list \<Rightarrow> int \<Rightarrow> int \<Rightarrow> int \<Rightarrow> 'a list list option" where
  "window_from sequence size' step i =
     (if py_slice sequence i (i + size') = [] then Some []
      else Option.bind (window_from sequence size' step (i + step))
             (\<lambda>rest. Some (py_slice sequence i (i + size') # rest)))"

declare window_from.simps [code]

definition window :: "'a list \<Rightarrow> int \<Rightarrow> int \<Rightarrow> 'a list list option" where
  "window sequence size' step = window_from sequence size' step 0"

subsection \<open>The constructor\<close>

fun validate :: "env \<Rightarrow> string list \<Rightarrow> error option" where
  "validate e [] = None"
| "validate e (f # fs) =
     (if isfile e f
      then (if can_open e f then validate e fs else Some (IOError_EACCES f))
      else Some (IOError_ENOENT f))"

fun prepare_rules_from :: "nat \<Rightarrow> string list \<Rightarrow> (string \<times> string) list" where
  "prepare_rules_from i [] = []"
| "prepare_rules_from i (fn # fns) = (''RuleFile'' @ decimal i, fn) # prepare_rules_from (Suc i) fns"

definition prepare_rules :: "string list \<Rightarrow> (string \<times> string) list" where
  "prepare_rules rs = prepare_rules_from 0 rs"

text \<open>Lines 89 to 131: the files are checked first, then the rules are compiled or loaded.\<close>

definition load_rules :: "env \<Rightarrow> string list \<Rightarrow> bool \<Rightarrow> error + (rule_files \<times> yara_rules)" where
  "load_rules e files compiled =
     (case validate e files of
        Some err \<Rightarrow> Inl err
      | None \<Rightarrow>
          if \<not> compiled then
            (case yara_compile e (prepare_rules files) of
               Inl (SyntaxError msg) \<Rightarrow> Inl (ProcessorException (RuleSyntaxError msg))
             | Inl (Error msg) \<Rightarrow> Inl (YaraError msg)
             | Inr r \<Rightarrow> Inr (RuleDict (prepare_rules files), r))
          else if length files \<noteq> 1 then Inl (ProcessorException CompiledToOneFile)
          else
            (case yara_load e (hd files) of
               Inl (SyntaxError msg) \<Rightarrow> Inl (ProcessorException (LoadingCompiledRules msg))
             | Inl (Error msg) \<Rightarrow> Inl (ProcessorException (LoadingCompiledRules msg))
             | Inr r \<Rightarrow> Inr (RulePath (hd files), r)))"

text \<open>
  Lines 133 to 159. The mode is checked in lower case and stored as it was given.
  \<^verbatim>\<open>self.data = ''\<close> stores the empty string, which dispatches nothing in any
  mode (lemma \<open>data_setter_empty\<close> below), before the index and the offset are set
  to zero.
\<close>

definition init :: "env \<Rightarrow> string list \<Rightarrow> string \<Rightarrow> bool \<Rightarrow> kwargs \<Rightarrow> error + processor" where
  "init e files mode compiled kw =
     (case load_rules e files compiled of
        Inl err \<Rightarrow> Inl err
      | Inr (rf, r) \<Rightarrow>
          if lower mode \<notin> set [''raw'', ''fixed_buffer'', ''sliding_window'']
          then Inl (ProcessorException (NotSupportedMode mode))
          else Inr \<lparr> rule_files = rf,
                     rules = r,
                     allowed_modes = [''raw'', ''fixed_buffer'', ''sliding_window''],
                     processing_mode = mode,
                     buffer_size = kwargs_get kw ''buffer_size'' 1024,
                     window_step =
                       (if mode = ''fixed_buffer'' then kwargs_get kw ''buffer_size'' 1024
                        else kwargs_get kw ''window_step'' 1),
                     raw_results = [],
                     formatted_results = [],
                     current = [],
                     window_index = 0,
                     offset = 0 \<rparr>)"

subsection \<open>Analysis\<close>

text \<open>The body of the loop over the matches (lines 218 to 228).\<close>

definition format_string :: "int \<Rightarrow> int \<times> string \<times> string \<Rightarrow> string_hit" where
  "format_string base s =
     \<lparr> h_offset = base + fst s, h_rule_id = fst (snd s), h_string = hexlify (snd (snd s)) \<rparr>"

definition format_result :: "int \<Rightarrow> yara_match \<Rightarrow> scan_result" where
  "format_result base r =
     \<lparr> f_result = rule r, f_strings = map (format_string base) (strings r),
       f_subtype = ''scan_result'' \<rparr>"

definition record_match :: "processor \<Rightarrow> yara_match \<Rightarrow> processor" where
  "record_match p r =
     p\<lparr> raw_results := raw_results p @ [r],
        formatted_results := formatted_results p @ [format_result (offset p) r] \<rparr>"

text \<open>
  \<^verbatim>\<open>analyze(data=None)\<close>: the argument is \<open>None\<close> when it is left out. The test
  \<^verbatim>\<open>not data\<close> holds for \<open>None\<close> and for the empty string. The value returned is
  \<^verbatim>\<open>self.results\<close>, the second component.
\<close>

definition scanned :: "processor \<Rightarrow> string option \<Rightarrow> string" where
  "scanned p d = (case d of None \<Rightarrow> current p | Some s \<Rightarrow> if s = [] then current p else s)"

definition results :: "processor \<Rightarrow> scan_result list" where
  "results p = formatted_results p"

definition analyze :: "processor \<Rightarrow> string option \<Rightarrow> processor \<times> scan_result list" where
  "analyze p d =
     (let data = scanned p d;
          p1 = foldl record_match p (rules p data);
          p2 = (if processing_mode p1 = ''raw'' then p1\<lparr> offset := offset p1 + len data \<rparr> else p1)
      in (p2, results p2))"

definition clear_results :: "processor \<Rightarrow> processor" where
  "clear_results p = p\<lparr> raw_results := [], formatted_results := [] \<rparr>"

subsection \<open>Setting the data\<close>

text \<open>The body of the loop over the chunks (lines 298 to 304).\<close>

definition dispatch :: "processor \<Rightarrow> string \<Rightarrow> processor" where
  "dispatch p chunk =
     (let p1 = fst (analyze p (Some chunk)) in
      if processing_mode p1 = ''fixed_buffer'' then p1\<lparr> offset := offset p1 + len chunk \<rparr>
      else if processing_mode p1 = ''sliding_window'' then p1\<lparr> offset := offset p1 + window_step p1 \<rparr>
      else p1)"

text \<open>
  The setter of \<^verbatim>\<open>data\<close> (lines 290 to 307). The generator reads a copy of the
  buffer, so the chunks do not depend on what \<^verbatim>\<open>analyze\<close> does between them; a
  generator that never ends keeps the setter from returning.
\<close>

definition data_setter :: "processor \<Rightarrow> string \<Rightarrow> processor option" where
  "data_setter p v =
     (let p1 = p\<lparr> current := v \<rparr> in
      if processing_mode p1 \<noteq> ''raw'' then
        if current p1 \<noteq> [] \<and> len (py_slice_from (current p1) (window_index p1)) \<ge> buffer_size p1 then
          (case window (py_slice_from (current p1) (window_index p1)) (buffer_size p1) (window_step p1) of
             None \<Rightarrow> None
           | Some chunks \<Rightarrow> Some ((foldl dispatch p1 chunks)\<lparr> window_index := len (current p1) \<rparr>))
        else Some p1
      else Some p1)"

text \<open>\<^verbatim>\<open>p.data += extra\<close>: the getter returns the buffer, the setter stores the sum.\<close>

definition append_data :: "processor \<Rightarrow> string \<Rightarrow> processor option" where
  "append_data p extra = data_setter p (current p @ extra)"

subsection \<open>Callers and sample rules\<close>

text \<open>
  A caller of the class: the calls of its public interface, one after another. A call
  that does not return ends the session without a processor.
\<close>

datatype call = SetData string | AppendData string | Analyze "string option" | ClearResults

fun perform :: "processor \<Rightarrow> call \<Rightarrow> processor option" where
  "perform p (SetData v) = data_setter p v"
| "perform p (AppendData v) = append_data p v"
| "perform p (Analyze d) = Some (fst (analyze p d))"
| "perform p ClearResults = Some (clear_results p)"

fun session :: "processor \<Rightarrow> call list \<Rightarrow> processor option" where
  "session p [] = Some p"
| "session p (c # cs) = (case perform p c of None \<Rightarrow> None | Some q \<Rightarrow> session q cs)"

definition construct_and_run :: "error + processor \<Rightarrow> call list \<Rightarrow> processor option" where
  "construct_and_run made calls = (case made of Inl err \<Rightarrow> None | Inr p \<Rightarrow> session p calls)"

definition returned :: "processor option \<Rightarrow> string option \<Rightarrow> scan_result list option" where
  "returned made d = map_option (\<lambda>p. snd (analyze p d)) made"

text \<open>
  Two sets of rules to run the class on. \<open>echo_rules\<close> matches every buffer it is
  given and reports the buffer itself at local offset 0, so that the raw results list
  the buffers the matcher was called on. \<open>dirty_rules\<close> is the rule of the tests: it
  reports every place where the literal \<^verbatim>\<open>dirty\<close> occurs.
\<close>

definition echo_rules :: yara_rules where
  "echo_rules d = [\<lparr> rule = ''seen'', strings = [(0, ''$chunk'', d)] \<rparr>]"

definition occurrences :: "string \<Rightarrow> string \<Rightarrow> nat list" where
  "occurrences pat d = filter (\<lambda>i. take (length pat) (drop i d) = pat) [0..<length d]"

definition dirty_rules :: yara_rules where
  "dirty_rules d =
     (if occurrences ''dirty'' d = [] then []
      else [\<lparr> rule = ''dirty'',
              strings = map (\<lambda>i. (int i, ''$dirty'', ''dirty'')) (occurrences ''dirty'' d) \<rparr>])"

text \<open>A world in which every rule file is there and compiles to the given rules.\<close>

definition test_env :: "yara_rules \<Rightarrow> env" where
  "test_env r =
     \<lparr> isfile = (\<lambda>f. True), can_open = (\<lambda>f. True),
       yara_compile = (\<lambda>fs. Inr r), yara_load = (\<lambda>f. Inr r) \<rparr>"

definition no_kwargs :: kwargs where
  "no_kwargs = Map.empty"

definition sized :: "int \<Rightarrow> int \<Rightarrow> kwargs" where
  "sized n s = [''buffer_size'' \<mapsto> n, ''window_step'' \<mapsto> s]"

text \<open>The processor the constructor makes in that world from the one file \<^verbatim>\<open>test.rule\<close>.\<close>

definition sample :: "yara_rules \<Rightarrow> string \<Rightarrow> int \<Rightarrow> int \<Rightarrow> processor" where
  "sample r mode n s =
     \<lparr> rule_files = RuleDict [(''RuleFile0'', ''test.rule'')],
       rules = r,
       allowed_modes = [''raw'', ''fixed_buffer'', ''sliding_window''],
       processing_mode = mode,
       buffer_size = n,
       window_step = s,
       raw_results = [],
       formatted_results = [],
       current = [],
       window_index = 0,
       offset = 0 \<rparr>"

text \<open>
  A processor whose mode is none of the three strings the methods compare with, whose
  offset is still 0, and whose formatted results carry the offsets the matcher gave.
\<close>

definition chunk_local :: "processor \<Rightarrow> bool" where
  "chunk_local p =
     (processing_mode p \<notin> set [''raw'', ''fixed_buffer'', ''sliding_window'']
      \<and> offset p = 0
      \<and> formatted_results p = map (format_result 0) (raw_results p))"

section \<open>Properties\<close>

subsection \<open>Slices\<close>

lemma py_slice_nonneg:
  "0 \<le> i \<Longrightarrow> 0 \<le> j \<Longrightarrow> py_slice xs i j = take (nat j - nat i) (drop (nat i) xs)"
  by (auto simp: py_slice_def clip_def min_def)

lemma py_slice_empty_iff:
  assumes "1 \<le> sz" "0 \<le> i"
  shows "(py_slice xs i (i + sz) = []) = (len xs \<le> i)"
  using assms by (auto simp: py_slice_nonneg len_def)

subsection \<open>The windowing generator ends and yields the slices at the multiples of the step\<close>

lemma window_from_slices:
  assumes "1 \<le> sz" "1 \<le> step" "0 \<le> i"
  shows "\<exists>K. window_from xs sz step i =
              Some (map (\<lambda>k. py_slice xs (i + int k * step) (i + int k * step + sz)) [0..<K])
           \<and> (\<forall>k. (len xs \<le> i + int k * step) = (K \<le> k))"
  using assms(3)
proof (induction "length xs - nat i" arbitrary: i rule: less_induct)
  case less
  show ?case
  proof (cases "len xs \<le> i")
    case True
    then have e: "py_slice xs i (i + sz) = []"
      using py_slice_empty_iff [OF assms(1) less.prems, of xs] by simp
    have "window_from xs sz step i = Some []"
      by (subst window_from.simps) (simp add: e)
    moreover have "\<forall>k. (len xs \<le> i + int k * step) = (0 \<le> k)"
    proof
      fix k
      have "0 \<le> int k * step" using assms(2) by simp
      then show "(len xs \<le> i + int k * step) = (0 \<le> k)" using True by simp
    qed
    ultimately show ?thesis by (intro exI [of _ 0]) simp
  next
    case False
    then have ne: "py_slice xs i (i + sz) \<noteq> []"
      using py_slice_empty_iff [OF assms(1) less.prems, of xs] by simp
    have dec: "length xs - nat (i + step) < length xs - nat i"
      using False less.prems assms(2) by (simp add: len_def)
    have nonneg: "0 \<le> i + step" using less.prems assms(2) by simp
    from less.hyps [OF dec nonneg] obtain K where
      w: "window_from xs sz step (i + step) =
            Some (map (\<lambda>k. py_slice xs (i + step + int k * step) (i + step + int k * step + sz)) [0..<K])"
      and c: "\<forall>k. (len xs \<le> i + step + int k * step) = (K \<le> k)"
      by blast
    have shift: "i + step + int k * step = i + int (Suc k) * step" for k
      by (simp add: algebra_simps)
    have "window_from xs sz step i =
            Some (map (\<lambda>k. py_slice xs (i + int k * step) (i + int k * step + sz)) [0..<Suc K])"
      by (subst window_from.simps) (simp add: ne w shift map_upt_Suc del: upt_Suc)
    moreover have "\<forall>k. (len xs \<le> i + int k * step) = (Suc K \<le> k)"
    proof
      fix k
      show "(len xs \<le> i + int k * step) = (Suc K \<le> k)"
      proof (cases k)
        case 0
        then show ?thesis using False by simp
      next
        case (Suc j)
        then show ?thesis using c [rule_format, of j] by (simp add: shift)
      qed
    qed
    ultimately show ?thesis by blast
  qed
qed

text \<open>
  C6. For a size and a step of at least 1 the generator returns: it yields the slices
  \<open>sequence[k * step : k * step + size]\<close> for \<open>k = 0, ..., K - 1\<close>, in this order,
  where \<open>K\<close> is the first \<open>k\<close> whose slice is empty, which is the first \<open>k\<close> with
  \<open>k * step\<close> at or beyond the length of the sequence.
\<close>

theorem window_slices:
  assumes "1 \<le> sz" and "1 \<le> step"
  shows "\<exists>K. window xs sz step =
              Some (map (\<lambda>k. py_slice xs (int k * step) (int k * step + sz)) [0..<K])
           \<and> (\<forall>k. (py_slice xs (int k * step) (int k * step + sz) = []) = (K \<le> k))
           \<and> (\<forall>k. (len xs \<le> int k * step) = (K \<le> k))"
proof -
  from window_from_slices [OF assms, of 0 xs] obtain K where
    w: "window xs sz step = Some (map (\<lambda>k. py_slice xs (int k * step) (int k * step + sz)) [0..<K])"
    and c: "\<forall>k. (len xs \<le> int k * step) = (K \<le> k)"
    by (auto simp: window_def)
  have "(py_slice xs (int k * step) (int k * step + sz) = []) = (K \<le> k)" for k
  proof -
    have "0 \<le> int k * step" using assms(2) by simp
    from py_slice_empty_iff [OF assms(1) this, of xs] c show ?thesis by simp
  qed
  with w c show ?thesis by blast
qed

theorem window_slices_witness:
  "(1::int) \<le> 5 \<and> (1::int) \<le> 2 \<and>
   window ''123456789'' 5 2 = Some [''12345'', ''34567'', ''56789'', ''789'', ''9'']"
proof -
  have e: "window ''123456789'' 5 2 = Some [''12345'', ''34567'', ''56789'', ''789'', ''9'']"
    by code_simp
  show ?thesis using window_slices [of 5 2 "''123456789''"] e by simp
qed

text \<open>
  Whatever the size and the step, a generator that ends has yielded no empty slice; and
  with a step of 0 it ends only when its first slice is empty.
\<close>

lemma window_from_nonempty:
  "window_from xs sz step i = Some cs \<Longrightarrow> [] \<notin> set cs"
proof (induction rule: window_from.raw_induct [rotated 1, consumes 1])
  case (1 f xs sz step i cs)
  then show ?case
    by (auto split: if_splits simp: bind_eq_Some_conv)
qed

lemma window_nonempty: "window xs sz step = Some cs \<Longrightarrow> [] \<notin> set cs"
  unfolding window_def by (rule window_from_nonempty)

lemma window_from_returns_step:
  "window_from xs sz step i = Some cs \<Longrightarrow> step \<noteq> 0 \<or> py_slice xs i (i + sz) = []"
proof (induction rule: window_from.raw_induct [rotated 1, consumes 1])
  case (1 f xs sz step i cs)
  then show ?case
    by (auto split: if_splits simp: bind_eq_Some_conv)
qed

lemma window_step_zero:
  "xs \<noteq> [] \<Longrightarrow> 1 \<le> sz \<Longrightarrow> window xs sz 0 = None"
proof -
  assume a: "xs \<noteq> []" "1 \<le> sz"
  have "py_slice xs 0 (0 + sz) \<noteq> []"
    using a by (simp add: py_slice_def clip_def)
  with window_from_returns_step [of xs sz 0 0] show ?thesis
    by (cases "window xs sz 0") (auto simp: window_def)
qed

subsection \<open>What one analysis does\<close>

lemma foldl_record_match:
  "foldl record_match p ms =
     p\<lparr> raw_results := raw_results p @ ms,
        formatted_results := formatted_results p @ map (format_result (offset p)) ms \<rparr>"
  by (induction ms arbitrary: p) (simp_all add: record_match_def)

lemma analyze_state:
  "fst (analyze p d) =
     p\<lparr> raw_results := raw_results p @ rules p (scanned p d),
        formatted_results :=
          formatted_results p @ map (format_result (offset p)) (rules p (scanned p d)),
        offset := (if processing_mode p = ''raw'' then offset p + len (scanned p d) else offset p) \<rparr>"
  by (simp add: analyze_def Let_def foldl_record_match)

lemma analyze_returned:
  "snd (analyze p d) = formatted_results (fst (analyze p d))"
  by (simp add: analyze_def Let_def results_def)

text \<open>
  C7. \<^verbatim>\<open>clear_results\<close> leaves both lists of results empty and every other
  attribute, the buffer, the index and the offset among them, as it was.
\<close>

theorem clear_results_frame:
  "raw_results (clear_results p) = [] \<and> formatted_results (clear_results p) = []
   \<and> current (clear_results p) = current p
   \<and> window_index (clear_results p) = window_index p
   \<and> offset (clear_results p) = offset p
   \<and> processing_mode (clear_results p) = processing_mode p
   \<and> buffer_size (clear_results p) = buffer_size p
   \<and> window_step (clear_results p) = window_step p
   \<and> rules (clear_results p) = rules p
   \<and> rule_files (clear_results p) = rule_files p
   \<and> allowed_modes (clear_results p) = allowed_modes p"
  by (simp add: clear_results_def)

text \<open>
  C10. \<^verbatim>\<open>analyze('')\<close> is \<^verbatim>\<open>analyze()\<close>: the buffer scanned is the current
  buffer, the matcher is asked about that buffer and no other, and in raw mode the
  offset moves by the length of that buffer.
\<close>

theorem analyze_empty_argument:
  "analyze p (Some []) = analyze p None
   \<and> scanned p (Some []) = current p
   \<and> fst (analyze p (Some [])) =
       p\<lparr> raw_results := raw_results p @ rules p (current p),
          formatted_results :=
            formatted_results p @ map (format_result (offset p)) (rules p (current p)),
          offset := (if processing_mode p = ''raw'' then offset p + len (current p) else offset p) \<rparr>"
proof -
  have s: "scanned p (Some []) = current p" by (simp add: scanned_def)
  have "analyze p (Some []) = analyze p None" by (simp add: analyze_def scanned_def)
  moreover note s
  moreover have "fst (analyze p (Some [])) =
       p\<lparr> raw_results := raw_results p @ rules p (current p),
          formatted_results :=
            formatted_results p @ map (format_result (offset p)) (rules p (current p)),
          offset := (if processing_mode p = ''raw'' then offset p + len (current p) else offset p) \<rparr>"
    by (simp only: analyze_state s)
  ultimately show ?thesis by blast
qed

subsection \<open>The loop over the chunks\<close>

lemma dispatch_state:
  "chunk \<noteq> [] \<Longrightarrow> dispatch p chunk =
     p\<lparr> raw_results := raw_results p @ rules p chunk,
        formatted_results := formatted_results p @ map (format_result (offset p)) (rules p chunk),
        offset :=
          (if processing_mode p = ''raw'' \<or> processing_mode p = ''fixed_buffer''
           then offset p + len chunk
           else if processing_mode p = ''sliding_window'' then offset p + window_step p
           else offset p) \<rparr>"
  by (simp add: dispatch_def Let_def analyze_state scanned_def)

lemma dispatch_frame:
  "rules (dispatch p c) = rules p \<and> processing_mode (dispatch p c) = processing_mode p
   \<and> window_step (dispatch p c) = window_step p \<and> buffer_size (dispatch p c) = buffer_size p
   \<and> current (dispatch p c) = current p \<and> window_index (dispatch p c) = window_index p"
  by (simp add: dispatch_def Let_def analyze_state)

lemma foldl_dispatch_frame:
  "rules (foldl dispatch p cs) = rules p \<and> processing_mode (foldl dispatch p cs) = processing_mode p
   \<and> window_step (foldl dispatch p cs) = window_step p \<and> buffer_size (foldl dispatch p cs) = buffer_size p
   \<and> current (foldl dispatch p cs) = current p \<and> window_index (foldl dispatch p cs) = window_index p"
  by (induction cs arbitrary: p) (simp_all add: dispatch_frame)

lemma foldl_dispatch_formatted:
  assumes "[] \<notin> set cs"
  shows "formatted_results (foldl dispatch p cs) =
     formatted_results p @
     concat (map (\<lambda>k. map (format_result (offset (foldl dispatch p (take k cs)))) (rules p (cs ! k)))
               [0..<length cs])"
  using assms
proof (induction cs rule: rev_induct)
  case Nil
  show ?case by simp
next
  case (snoc c cs)
  let ?F = "\<lambda>xs k. map (format_result (offset (foldl dispatch p (take k xs)))) (rules p (xs ! k))"
  from snoc have ne: "c \<noteq> []"
    and IH: "formatted_results (foldl dispatch p cs) =
               formatted_results p @ concat (map (?F cs) [0..<length cs])"
    by auto
  have step: "formatted_results (foldl dispatch p (cs @ [c])) =
      formatted_results (foldl dispatch p cs) @
      map (format_result (offset (foldl dispatch p cs))) (rules p c)"
    by (simp add: dispatch_state [OF ne] foldl_dispatch_frame)
  have a: "map (?F (cs @ [c])) [0..<length cs] = map (?F cs) [0..<length cs]"
    by (rule map_cong) (simp_all add: nth_append)
  have b: "?F (cs @ [c]) (length cs) = map (format_result (offset (foldl dispatch p cs))) (rules p c)"
    by simp
  have "concat (map (?F (cs @ [c])) [0..<length (cs @ [c])]) =
        concat (map (?F (cs @ [c])) [0..<length cs]) @ ?F (cs @ [c]) (length cs)"
    by simp
  then have "concat (map (?F (cs @ [c])) [0..<length (cs @ [c])]) =
        concat (map (?F cs) [0..<length cs]) @
        map (format_result (offset (foldl dispatch p cs))) (rules p c)"
    by (simp only: a b)
  with step IH show ?case by (simp only: append_assoc)
qed

lemma foldl_dispatch_offset:
  assumes "[] \<notin> set cs" and "k < length cs"
  shows "offset (foldl dispatch p (take (Suc k) cs)) =
     (if processing_mode p = ''raw'' \<or> processing_mode p = ''fixed_buffer''
      then offset (foldl dispatch p (take k cs)) + len (cs ! k)
      else if processing_mode p = ''sliding_window''
      then offset (foldl dispatch p (take k cs)) + window_step p
      else offset (foldl dispatch p (take k cs)))"
proof -
  have ne: "cs ! k \<noteq> []" using assms by (metis nth_mem)
  show ?thesis
    by (simp add: take_Suc_conv_app_nth [OF assms(2)] dispatch_state [OF ne] foldl_dispatch_frame)
qed

lemma format_result_offsets:
  "map h_offset (f_strings (format_result b r)) = map (\<lambda>s. b + fst s) (strings r)"
  by (simp add: format_result_def format_string_def comp_def)

text \<open>
  C5. Every analysis formats the strings of its matches with the offset held when it
  is called: the offset reported is that offset plus the local one. In the loop of the
  setter the records of chunk \<open>k\<close> are formatted with the offset held after the
  chunks before it, and the offset moves on (by the length of the chunk in
  \<^verbatim>\<open>fixed_buffer\<close> mode, by the step in \<^verbatim>\<open>sliding_window\<close> mode) only
  once chunk \<open>k\<close> has been analyzed.
\<close>

theorem offset_translation:
  "formatted_results (fst (analyze p d)) =
     formatted_results p @ map (format_result (offset p)) (rules p (scanned p d))
   \<and> map h_offset (f_strings (format_result (offset p) r)) = map (\<lambda>s. offset p + fst s) (strings r)
   \<and> (processing_mode p \<noteq> ''raw'' \<and> v \<noteq> []
        \<and> buffer_size p \<le> len (py_slice_from v (window_index p))
        \<and> window (py_slice_from v (window_index p)) (buffer_size p) (window_step p) = Some chunks
      \<longrightarrow>
        (\<exists>q. data_setter p v = Some q \<and>
              formatted_results q =
                formatted_results p @
                concat (map (\<lambda>k. map (format_result (offset (foldl dispatch (p\<lparr>current := v\<rparr>) (take k chunks))))
                                   (rules p (chunks ! k)))
                          [0..<length chunks]))
        \<and> (\<forall>k<length chunks.
              offset (fst (analyze (foldl dispatch (p\<lparr>current := v\<rparr>) (take k chunks)) (Some (chunks ! k))))
                = offset (foldl dispatch (p\<lparr>current := v\<rparr>) (take k chunks))
              \<and> offset (foldl dispatch (p\<lparr>current := v\<rparr>) (take (Suc k) chunks)) =
                  offset (foldl dispatch (p\<lparr>current := v\<rparr>) (take k chunks)) +
                    (if processing_mode p = ''fixed_buffer'' then len (chunks ! k)
                     else if processing_mode p = ''sliding_window'' then window_step p else 0)))"
proof -
  let ?p1 = "p\<lparr>current := v\<rparr>"
  have one: "formatted_results (fst (analyze p d)) =
           formatted_results p @ map (format_result (offset p)) (rules p (scanned p d))"
    by (simp add: analyze_state)
  have two: "map h_offset (f_strings (format_result (offset p) r)) = map (\<lambda>s. offset p + fst s) (strings r)"
    by (rule format_result_offsets)
  have three: "(\<exists>q. data_setter p v = Some q \<and>
              formatted_results q =
                formatted_results p @
                concat (map (\<lambda>k. map (format_result (offset (foldl dispatch ?p1 (take k chunks))))
                                   (rules p (chunks ! k)))
                          [0..<length chunks]))
        \<and> (\<forall>k<length chunks.
              offset (fst (analyze (foldl dispatch ?p1 (take k chunks)) (Some (chunks ! k))))
                = offset (foldl dispatch ?p1 (take k chunks))
              \<and> offset (foldl dispatch ?p1 (take (Suc k) chunks)) =
                  offset (foldl dispatch ?p1 (take k chunks)) +
                    (if processing_mode p = ''fixed_buffer'' then len (chunks ! k)
                     else if processing_mode p = ''sliding_window'' then window_step p else 0))"
    if h: "processing_mode p \<noteq> ''raw'' \<and> v \<noteq> []
        \<and> buffer_size p \<le> len (py_slice_from v (window_index p))
        \<and> window (py_slice_from v (window_index p)) (buffer_size p) (window_step p) = Some chunks"
  proof -
    have ne: "[] \<notin> set chunks" using h by (auto dest: window_nonempty)
    have set: "data_setter p v = Some ((foldl dispatch ?p1 chunks)\<lparr>window_index := len v\<rparr>)"
      using h by (simp add: data_setter_def Let_def)
    have fr: "formatted_results ((foldl dispatch ?p1 chunks)\<lparr>window_index := len v\<rparr>) =
                formatted_results p @
                concat (map (\<lambda>k. map (format_result (offset (foldl dispatch ?p1 (take k chunks))))
                                   (rules p (chunks ! k)))
                          [0..<length chunks])"
      using foldl_dispatch_formatted [OF ne, of ?p1] by simp
    have before: "offset (fst (analyze (foldl dispatch ?p1 (take k chunks)) (Some (chunks ! k))))
                = offset (foldl dispatch ?p1 (take k chunks))" for k
      using h by (simp add: analyze_state foldl_dispatch_frame)
    have after: "\<forall>k<length chunks.
             offset (foldl dispatch ?p1 (take (Suc k) chunks)) =
             offset (foldl dispatch ?p1 (take k chunks)) +
               (if processing_mode p = ''fixed_buffer'' then len (chunks ! k)
                else if processing_mode p = ''sliding_window'' then window_step p else 0)"
      using foldl_dispatch_offset [OF ne, of _ ?p1] h by simp
    from set fr before after show ?thesis by blast
  qed
  from one two three show ?thesis by blast
qed

lemma sliding_chunks:
  "window (py_slice_from ''123456789'' 0) 5 2 = Some [''12345'', ''34567'', ''56789'', ''789'', ''9'']"
  by code_simp

theorem offset_translation_witness:
  "processing_mode (sample echo_rules ''sliding_window'' 5 2) \<noteq> ''raw''
   \<and> ''123456789'' \<noteq> []
   \<and> buffer_size (sample echo_rules ''sliding_window'' 5 2)
        \<le> len (py_slice_from ''123456789'' (window_index (sample echo_rules ''sliding_window'' 5 2)))
   \<and> window (py_slice_from ''123456789'' (window_index (sample echo_rules ''sliding_window'' 5 2)))
        (buffer_size (sample echo_rules ''sliding_window'' 5 2))
        (window_step (sample echo_rules ''sliding_window'' 5 2))
        = Some [''12345'', ''34567'', ''56789'', ''789'', ''9'']
   \<and> map_option (map (map h_offset \<circ> f_strings) \<circ> formatted_results)
        (data_setter (sample echo_rules ''sliding_window'' 5 2) ''123456789'')
        = Some [[0], [2], [4], [6], [8]]"
proof -
  have a: "processing_mode (sample echo_rules ''sliding_window'' 5 2) \<noteq> ''raw''"
    by (simp add: sample_def)
  have b: "''123456789'' \<noteq> []" by simp
  have c: "buffer_size (sample echo_rules ''sliding_window'' 5 2)
        \<le> len (py_slice_from ''123456789'' (window_index (sample echo_rules ''sliding_window'' 5 2)))"
    by (simp add: sample_def len_def py_slice_from_def clip_def)
  have d: "window (py_slice_from ''123456789'' (window_index (sample echo_rules ''sliding_window'' 5 2)))
        (buffer_size (sample echo_rules ''sliding_window'' 5 2))
        (window_step (sample echo_rules ''sliding_window'' 5 2))
        = Some [''12345'', ''34567'', ''56789'', ''789'', ''9'']"
    using sliding_chunks by (simp add: sample_def)
  have e: "map_option (map (map h_offset \<circ> f_strings) \<circ> formatted_results)
        (data_setter (sample echo_rules ''sliding_window'' 5 2) ''123456789'')
        = Some [[0], [2], [4], [6], [8]]"
    by code_simp
  from offset_translation
         [of "sample echo_rules ''sliding_window'' 5 2" None _ "''123456789''"
             "[''12345'', ''34567'', ''56789'', ''789'', ''9'']"]
       a b c d e
  show ?thesis by blast
qed

subsection \<open>The constructor and the mode\<close>

lemma data_setter_empty: "data_setter p [] = Some (p\<lparr>current := []\<rparr>)"
  by (simp add: data_setter_def Let_def)

lemma init_sample:
  "lower mode \<in> set [''raw'', ''fixed_buffer'', ''sliding_window''] \<Longrightarrow>
   init (test_env r) [''test.rule''] mode False (sized n s) =
     Inr (sample r mode n (if mode = ''fixed_buffer'' then n else s))"
  by (simp add: init_def load_rules_def test_env_def prepare_rules_def decimal.simps hex_digit_def sized_def kwargs_get_def sample_def)

lemma init_ok:
  assumes "load_rules e files compiled = Inr (rf, r)"
    and "lower mode \<in> set [''raw'', ''fixed_buffer'', ''sliding_window'']"
  shows "init e files mode compiled kw =
     Inr \<lparr> rule_files = rf, rules = r,
           allowed_modes = [''raw'', ''fixed_buffer'', ''sliding_window''],
           processing_mode = mode,
           buffer_size = kwargs_get kw ''buffer_size'' 1024,
           window_step = (if mode = ''fixed_buffer'' then kwargs_get kw ''buffer_size'' 1024
                          else kwargs_get kw ''window_step'' 1),
           raw_results = [], formatted_results = [], current = [],
           window_index = 0, offset = 0 \<rparr>"
  using assms by (simp add: init_def)

text \<open>
  C8. A mode that is not recognized, that is, whose lower-case form is none of
  \<^verbatim>\<open>raw\<close>, \<^verbatim>\<open>fixed_buffer\<close> and \<^verbatim>\<open>sliding_window\<close>, makes the
  constructor fail: no processor is made, and once the rule files have been checked
  and loaded the exception is the \<^verbatim>\<open>ProcessorException\<close> that names the mode.
\<close>

theorem unsupported_mode:
  assumes "lower mode \<notin> set [''raw'', ''fixed_buffer'', ''sliding_window'']"
  shows "isl (init e files mode compiled kw)
       \<and> (\<forall>rf r. load_rules e files compiled = Inr (rf, r) \<longrightarrow>
            init e files mode compiled kw = Inl (ProcessorException (NotSupportedMode mode)))"
  using assms by (auto simp: init_def split: sum.splits)

theorem unsupported_mode_witness:
  "lower ''bogus'' \<notin> set [''raw'', ''fixed_buffer'', ''sliding_window'']
   \<and> init (test_env dirty_rules) [''test.rule''] ''bogus'' False no_kwargs
       = Inl (ProcessorException (NotSupportedMode ''bogus''))"
proof -
  have a: "lower ''bogus'' \<notin> set [''raw'', ''fixed_buffer'', ''sliding_window'']"
    by code_simp
  have b: "load_rules (test_env dirty_rules) [''test.rule''] False
     = Inr (RuleDict [(''RuleFile0'', ''test.rule'')], dirty_rules)"
    by (simp add: load_rules_def test_env_def prepare_rules_def decimal.simps hex_digit_def)
  from unsupported_mode [OF a, of "test_env dirty_rules" "[''test.rule'']" False no_kwargs] a b
  show ?thesis by blast
qed

lemma chunk_local_analyze: "chunk_local p \<Longrightarrow> chunk_local (fst (analyze p d))"
  by (simp add: chunk_local_def analyze_state)

lemma chunk_local_dispatch: "chunk_local p \<Longrightarrow> chunk_local (dispatch p c)"
  using chunk_local_analyze [of p "Some c"]
  by (simp add: dispatch_def Let_def chunk_local_def analyze_state)

lemma chunk_local_foldl: "chunk_local p \<Longrightarrow> chunk_local (foldl dispatch p cs)"
  by (induction cs arbitrary: p) (simp_all add: chunk_local_dispatch)

lemma chunk_local_current: "chunk_local p \<Longrightarrow> chunk_local (p\<lparr>current := v\<rparr>)"
  by (simp add: chunk_local_def)

lemma chunk_local_index: "chunk_local p \<Longrightarrow> chunk_local (p\<lparr>window_index := n\<rparr>)"
  by (simp add: chunk_local_def)

lemma chunk_local_data_setter:
  assumes "chunk_local p" and "data_setter p v = Some q"
  shows "chunk_local q"
proof -
  have "chunk_local ((foldl dispatch (p\<lparr>current := v\<rparr>) cs)\<lparr>window_index := n\<rparr>)" for cs n
    by (intro chunk_local_index chunk_local_foldl chunk_local_current assms(1))
  with assms chunk_local_current [OF assms(1), of v] show ?thesis
    by (auto simp: data_setter_def Let_def split: if_splits option.splits)
qed

lemma chunk_local_clear: "chunk_local p \<Longrightarrow> chunk_local (clear_results p)"
  by (simp add: chunk_local_def clear_results_def)

lemma chunk_local_perform:
  "chunk_local p \<Longrightarrow> perform p c = Some q \<Longrightarrow> chunk_local q"
  by (cases c)
     (auto simp: append_data_def chunk_local_analyze chunk_local_clear
           dest: chunk_local_data_setter)

lemma chunk_local_session:
  "chunk_local p \<Longrightarrow> session p cs = Some q \<Longrightarrow> chunk_local q"
proof (induction cs arbitrary: p)
  case Nil
  then show ?case by simp
next
  case (Cons c cs)
  then show ?case
    by (auto split: option.splits dest: chunk_local_perform)
qed

lemma foldl_dispatch_raw:
  "[] \<notin> set cs \<Longrightarrow> raw_results (foldl dispatch p cs) = raw_results p @ concat (map (rules p) cs)"
proof (induction cs arbitrary: p)
  case Nil
  show ?case by simp
next
  case (Cons c cs)
  then have "c \<noteq> []" and "[] \<notin> set cs" by auto
  with Cons.IH [of "dispatch p c"] show ?case
    by (simp add: dispatch_frame) (simp add: dispatch_state)
qed

text \<open>
  C9. Once the rules are loaded, the constructor succeeds for every mode whose
  lower-case form is recognized, and stores the mode as given. When that mode is not
  itself one of the three lower-case strings, the first setting of a buffer of at
  least \<^verbatim>\<open>buffer_size\<close> bytes runs the matcher on every chunk of the generator,
  and after any calls whatever the offset is still 0 and every formatted offset is the
  local offset the matcher reported.
\<close>

theorem mode_stored_verbatim:
  assumes "load_rules e files compiled = Inr (rf, r)"
    and "lower mode \<in> set [''raw'', ''fixed_buffer'', ''sliding_window'']"
  shows "\<exists>p. init e files mode compiled kw = Inr p \<and> processing_mode p = mode \<and> offset p = 0
           \<and> (mode \<notin> set [''raw'', ''fixed_buffer'', ''sliding_window''] \<longrightarrow>
                (\<forall>v chunks. v \<noteq> [] \<and> buffer_size p \<le> len v
                     \<and> window v (buffer_size p) (window_step p) = Some chunks \<longrightarrow>
                   (\<exists>q. data_setter p v = Some q \<and> raw_results q = concat (map r chunks)
                        \<and> window_index q = len v))
              \<and> (\<forall>calls q. session p calls = Some q \<longrightarrow>
                   offset q = 0
                   \<and> formatted_results q = map (format_result 0) (raw_results q)
                   \<and> map (map h_offset \<circ> f_strings) (formatted_results q)
                       = map (map fst \<circ> strings) (raw_results q)))"
proof -
  let ?p = "\<lparr> rule_files = rf, rules = r,
           allowed_modes = [''raw'', ''fixed_buffer'', ''sliding_window''],
           processing_mode = mode,
           buffer_size = kwargs_get kw ''buffer_size'' 1024,
           window_step = (if mode = ''fixed_buffer'' then kwargs_get kw ''buffer_size'' 1024
                          else kwargs_get kw ''window_step'' 1),
           raw_results = [], formatted_results = [], current = [],
           window_index = 0, offset = 0 \<rparr>"
  have made: "init e files mode compiled kw = Inr ?p" using assms by (rule init_ok)
  have rest: "(\<forall>v chunks. v \<noteq> [] \<and> buffer_size ?p \<le> len v
                     \<and> window v (buffer_size ?p) (window_step ?p) = Some chunks \<longrightarrow>
                   (\<exists>q. data_setter ?p v = Some q \<and> raw_results q = concat (map r chunks)
                        \<and> window_index q = len v))
              \<and> (\<forall>calls q. session ?p calls = Some q \<longrightarrow>
                   offset q = 0
                   \<and> formatted_results q = map (format_result 0) (raw_results q)
                   \<and> map (map h_offset \<circ> f_strings) (formatted_results q)
                       = map (map fst \<circ> strings) (raw_results q))"
    if other: "mode \<notin> set [''raw'', ''fixed_buffer'', ''sliding_window'']"
  proof (intro conjI allI impI)
    fix v :: string and chunks :: "string list"
    assume h: "v \<noteq> [] \<and> buffer_size ?p \<le> len v
                 \<and> window v (buffer_size ?p) (window_step ?p) = Some chunks"
    then have ne: "[] \<notin> set chunks" by (auto dest: window_nonempty)
    have sl: "py_slice_from v 0 = v" by (simp add: py_slice_from_def clip_def)
    have "data_setter ?p v = Some ((foldl dispatch (?p\<lparr>current := v\<rparr>) chunks)\<lparr>window_index := len v\<rparr>)"
      using h other by (simp add: data_setter_def Let_def sl)
    moreover have "raw_results ((foldl dispatch (?p\<lparr>current := v\<rparr>) chunks)\<lparr>window_index := len v\<rparr>)
        = concat (map r chunks)"
      by (simp add: foldl_dispatch_raw [OF ne])
    ultimately show "\<exists>q. data_setter ?p v = Some q \<and> raw_results q = concat (map r chunks)
                        \<and> window_index q = len v"
      by simp
  next
    fix calls q
    assume s: "session ?p calls = Some q"
    have "chunk_local ?p" using other by (simp add: chunk_local_def)
    then have cl: "chunk_local q" using s by (rule chunk_local_session)
    show "offset q = 0" using cl by (simp add: chunk_local_def)
    show "formatted_results q = map (format_result 0) (raw_results q)"
      using cl by (simp add: chunk_local_def)
    then show "map (map h_offset \<circ> f_strings) (formatted_results q)
                       = map (map fst \<circ> strings) (raw_results q)"
      by (simp add: format_result_offsets comp_def)
  qed
  have "processing_mode ?p = mode \<and> offset ?p = 0" by simp
  with made rest show ?thesis by blast
qed

theorem mode_stored_verbatim_witness:
  "load_rules (test_env echo_rules) [''test.rule''] False
     = Inr (RuleDict [(''RuleFile0'', ''test.rule'')], echo_rules)
   \<and> lower ''Raw'' \<in> set [''raw'', ''fixed_buffer'', ''sliding_window'']
   \<and> ''Raw'' \<notin> set [''raw'', ''fixed_buffer'', ''sliding_window'']
   \<and> init (test_env echo_rules) [''test.rule''] ''Raw'' False (sized 5 2)
       = Inr (sample echo_rules ''Raw'' 5 2)
   \<and> map_option (map (map (snd \<circ> snd) \<circ> strings) \<circ> raw_results)
        (construct_and_run (init (test_env echo_rules) [''test.rule''] ''Raw'' False (sized 5 2))
           [SetData ''123456789''])
       = Some [[''12345''], [''34567''], [''56789''], [''789''], [''9'']]
   \<and> map_option (map (map h_offset \<circ> f_strings) \<circ> formatted_results)
        (construct_and_run (init (test_env echo_rules) [''test.rule''] ''Raw'' False (sized 5 2))
           [SetData ''123456789''])
       = Some [[0], [0], [0], [0], [0]]
   \<and> map_option offset
        (construct_and_run (init (test_env echo_rules) [''test.rule''] ''Raw'' False (sized 5 2))
           [SetData ''123456789''])
       = Some 0"
proof -
  have a: "load_rules (test_env echo_rules) [''test.rule''] False
     = Inr (RuleDict [(''RuleFile0'', ''test.rule'')], echo_rules)"
    by (simp add: load_rules_def test_env_def prepare_rules_def decimal.simps hex_digit_def)
  have b: "lower ''Raw'' \<in> set [''raw'', ''fixed_buffer'', ''sliding_window'']"
    by code_simp
  have c: "''Raw'' \<notin> set [''raw'', ''fixed_buffer'', ''sliding_window'']"
    by simp
  have d: "init (test_env echo_rules) [''test.rule''] ''Raw'' False (sized 5 2)
       = Inr (sample echo_rules ''Raw'' 5 2)"
    using init_sample [OF b, of echo_rules 5 2] by simp
  have e: "map_option (map (map (snd \<circ> snd) \<circ> strings) \<circ> raw_results)
        (construct_and_run (init (test_env echo_rules) [''test.rule''] ''Raw'' False (sized 5 2))
           [SetData ''123456789''])
       = Some [[''12345''], [''34567''], [''56789''], [''789''], [''9'']]"
    by code_simp
  have f: "map_option (map (map h_offset \<circ> f_strings) \<circ> formatted_results)
        (construct_and_run (init (test_env echo_rules) [''test.rule''] ''Raw'' False (sized 5 2))
           [SetData ''123456789''])
       = Some [[0], [0], [0], [0], [0]]"
    by code_simp
  have g: "map_option offset
        (construct_and_run (init (test_env echo_rules) [''test.rule''] ''Raw'' False (sized 5 2))
           [SetData ''123456789''])
       = Some 0"
    by code_simp
  from mode_stored_verbatim [OF a b, of "sized 5 2"] a b c d e f g show ?thesis by blast
qed

subsection \<open>Runs of the class that differ from its documentation\<close>

text \<open>
  C1. \<^verbatim>\<open>analyze\<close> returns \<^verbatim>\<open>self.results\<close>, the list of all records since
  the last \<^verbatim>\<open>clear_results\<close>, where its docstring says it returns the results
  returned by the match. In raw mode, with the rule of the tests and the buffer
  \<^verbatim>\<open>a dirty string\<close>: the first call returns one record; the second call finds
  one match and returns two records.
\<close>

theorem analyze_returns_history:
  "returned (construct_and_run (init (test_env dirty_rules) [''test.rule''] ''raw'' False no_kwargs)
              [SetData ''a dirty string''])
            None
     = Some [\<lparr> f_result = ''dirty'',
               f_strings = [\<lparr> h_offset = 2, h_rule_id = ''$dirty'', h_string = ''6469727479'' \<rparr>],
               f_subtype = ''scan_result'' \<rparr>]
   \<and> returned (construct_and_run (init (test_env dirty_rules) [''test.rule''] ''raw'' False no_kwargs)
              [SetData ''a dirty string'', Analyze None])
            None
     = Some [\<lparr> f_result = ''dirty'',
               f_strings = [\<lparr> h_offset = 2, h_rule_id = ''$dirty'', h_string = ''6469727479'' \<rparr>],
               f_subtype = ''scan_result'' \<rparr>,
             \<lparr> f_result = ''dirty'',
               f_strings = [\<lparr> h_offset = 16, h_rule_id = ''$dirty'', h_string = ''6469727479'' \<rparr>],
               f_subtype = ''scan_result'' \<rparr>]"
  by code_simp

text \<open>
  C2. In \<^verbatim>\<open>fixed_buffer\<close> mode with a buffer size of 5, appending
  \<^verbatim>\<open>123456789\<close> runs the matcher on \<^verbatim>\<open>12345\<close> and then on the short rest
  \<^verbatim>\<open>6789\<close>, where the docstring of the setter says the rest is buffered into the
  next chunk. Appending \<^verbatim>\<open>0\<close> afterwards runs the matcher on nothing:
  \<^verbatim>\<open>67890\<close> is never scanned.
\<close>

theorem fixed_buffer_short_chunk:
  "map_option (map (map (snd \<circ> snd) \<circ> strings) \<circ> raw_results)
     (construct_and_run (init (test_env echo_rules) [''test.rule''] ''fixed_buffer'' False (sized 5 1))
        [AppendData ''123456789''])
     = Some [[''12345''], [''6789'']]
   \<and> map_option (map (map (snd \<circ> snd) \<circ> strings) \<circ> raw_results)
     (construct_and_run (init (test_env echo_rules) [''test.rule''] ''fixed_buffer'' False (sized 5 1))
        [AppendData ''123456789'', AppendData ''0''])
     = Some [[''12345''], [''6789'']]
   \<and> map_option current
     (construct_and_run (init (test_env echo_rules) [''test.rule''] ''fixed_buffer'' False (sized 5 1))
        [AppendData ''123456789'', AppendData ''0''])
     = Some ''1234567890''"
  by code_simp

text \<open>
  C3. In \<^verbatim>\<open>sliding_window\<close> mode with a size of 5 and a step of 2, appending
  \<^verbatim>\<open>123456789\<close> runs the matcher on five chunks, the last two shorter than the
  window, with the offsets 0, 2, 4, 6 and 8, where the docstring of the setter lists
  the three chunks \<^verbatim>\<open>12345\<close>, \<^verbatim>\<open>34567\<close> and \<^verbatim>\<open>56789\<close>.
\<close>

theorem sliding_window_short_chunks:
  "map_option (map (map (snd \<circ> snd) \<circ> strings) \<circ> raw_results)
     (construct_and_run (init (test_env echo_rules) [''test.rule''] ''sliding_window'' False (sized 5 2))
        [AppendData ''123456789''])
     = Some [[''12345''], [''34567''], [''56789''], [''789''], [''9'']]
   \<and> map_option (map (map h_offset \<circ> f_strings) \<circ> formatted_results)
     (construct_and_run (init (test_env echo_rules) [''test.rule''] ''sliding_window'' False (sized 5 2))
        [AppendData ''123456789''])
     = Some [[0], [2], [4], [6], [8]]"
  by code_simp

text \<open>
  C4. In \<^verbatim>\<open>fixed_buffer\<close> mode with a buffer size of 5, after appending
  \<^verbatim>\<open>123456789\<close> the offset is 9: one buffer of 5 bytes and one short chunk of 4
  bytes were given to the matcher, and both are counted.
\<close>

theorem fixed_buffer_offset_counts_short_chunk:
  "map_option offset
     (construct_and_run (init (test_env echo_rules) [''test.rule''] ''fixed_buffer'' False (sized 5 1))
        [AppendData ''123456789''])
     = Some 9
   \<and> map_option (map (map (int \<circ> length \<circ> snd \<circ> snd) \<circ> strings) \<circ> raw_results)
     (construct_and_run (init (test_env echo_rules) [''test.rule''] ''fixed_buffer'' False (sized 5 1))
        [AppendData ''123456789''])
     = Some [[5], [4]]"
  by code_simp

end
